theory Spec2Isabelle
  imports Complex_Main "HOL-Library.Sublist"
begin

section \<open>JavaScript values\<close>

text \<open>
  The filter engine (\<^verbatim>\<open>src/engine/filterEngine.ts\<close>) works on untyped run-time data:
  records are \<^verbatim>\<open>Record<string, unknown>\<close>, and a condition's value reaches the matchers
  through \<^verbatim>\<open>as\<close> casts, which check nothing at run time. Records and condition values
  are JSON-like data. A property read on such data can also reach what every object and
  array inherits: the two prototype objects \<^verbatim>\<open>Object.prototype\<close> and \<^verbatim>\<open>Array.prototype\<close>
  and the built-in functions, which \<open>VFunction\<close> identifies by their qualified names. A
  number is modelled by its exact mathematical value (the engine only compares numbers,
  it never computes with them), with the three special values kept apart.
\<close>

datatype jsnum = NaN | NegInfinity | Num real | PosInfinity

datatype jsval =
    VUndefined
  | VNull
  | VBool bool
  | VNum jsnum
  | VStr string
  | VArr "jsval list"
  | VObj "(string \<times> jsval) list"
  | VFunction string
  | VObjectPrototype
  | VArrayPrototype

text \<open>The only exception the engine can raise on such data.\<close>

datatype error = TypeError

text \<open>Relational operators on numbers: every comparison with \<open>NaN\<close> is false.\<close>

fun num_lt :: "jsnum \<Rightarrow> jsnum \<Rightarrow> bool" where
  "num_lt NaN b = False"
| "num_lt a NaN = False"
| "num_lt a NegInfinity = False"
| "num_lt NegInfinity b = True"
| "num_lt PosInfinity b = False"
| "num_lt a PosInfinity = True"
| "num_lt (Num x) (Num y) = (x < y)"

fun num_eq :: "jsnum \<Rightarrow> jsnum \<Rightarrow> bool" where
  "num_eq NaN b = False"
| "num_eq a NaN = False"
| "num_eq a b = (a = b)"

definition num_le :: "jsnum \<Rightarrow> jsnum \<Rightarrow> bool" where
  "num_le a b = (num_lt a b \<or> num_eq a b)"

definition Number_isNaN :: "jsnum \<Rightarrow> bool" where
  "Number_isNaN n = (n = NaN)"

text \<open>
  \<^verbatim>\<open>typeof\<close>, \<^verbatim>\<open>Array.isArray\<close>, truthiness (\<^verbatim>\<open>Boolean(v)\<close>, \<^verbatim>\<open>!v\<close>, \<^verbatim>\<open>v && ...\<close>).
  \<^verbatim>\<open>Array.prototype\<close> is itself an array, with no elements.
\<close>

fun typeof :: "jsval \<Rightarrow> string" where
  "typeof VUndefined = ''undefined''"
| "typeof VNull = ''object''"
| "typeof (VBool b) = ''boolean''"
| "typeof (VNum n) = ''number''"
| "typeof (VStr s) = ''string''"
| "typeof (VArr xs) = ''object''"
| "typeof (VObj kvs) = ''object''"
| "typeof (VFunction f) = ''function''"
| "typeof VObjectPrototype = ''object''"
| "typeof VArrayPrototype = ''object''"

fun Array_isArray :: "jsval \<Rightarrow> bool" where
  "Array_isArray (VArr xs) = True"
| "Array_isArray VArrayPrototype = True"
| "Array_isArray v = False"

fun array_items :: "jsval \<Rightarrow> jsval list" where
  "array_items (VArr xs) = xs"
| "array_items v = []"

fun truthy :: "jsval \<Rightarrow> bool" where
  "truthy VUndefined = False"
| "truthy VNull = False"
| "truthy (VBool b) = b"
| "truthy (VNum n) = (n \<noteq> NaN \<and> n \<noteq> Num 0)"
| "truthy (VStr s) = (s \<noteq> [])"
| "truthy v = True"

text \<open>
  Strict equality \<^verbatim>\<open>===\<close> and the \<^verbatim>\<open>SameValueZero\<close> comparison of
  \<^verbatim>\<open>Array.prototype.includes\<close>. Arrays and objects compare by reference; a record and a
  condition never share one, so two of them are never equal here. A built-in is equal to
  itself only.
\<close>

fun strict_equals :: "jsval \<Rightarrow> jsval \<Rightarrow> bool" where
  "strict_equals VUndefined VUndefined = True"
| "strict_equals VNull VNull = True"
| "strict_equals (VBool a) (VBool b) = (a = b)"
| "strict_equals (VNum a) (VNum b) = num_eq a b"
| "strict_equals (VStr a) (VStr b) = (a = b)"
| "strict_equals (VFunction a) (VFunction b) = (a = b)"
| "strict_equals VObjectPrototype VObjectPrototype = True"
| "strict_equals VArrayPrototype VArrayPrototype = True"
| "strict_equals a b = False"

fun sameValueZero :: "jsval \<Rightarrow> jsval \<Rightarrow> bool" where
  "sameValueZero (VNum a) (VNum b) = (a = b)"
| "sameValueZero a b = strict_equals a b"

definition Array_includes :: "jsval list \<Rightarrow> jsval \<Rightarrow> bool" where
  "Array_includes xs v = list_ex (\<lambda>x. sameValueZero x v) xs"

text \<open>
  Property keys that are array indices: the canonical decimal numerals below \<open>2^32 - 1\<close>.
\<close>

definition digit_of :: "char \<Rightarrow> nat option" where
  "digit_of c = map_of (zip ''0123456789'' [0 ..< 10]) c"

fun decimal :: "nat \<Rightarrow> string \<Rightarrow> nat option" where
  "decimal acc [] = Some acc"
| "decimal acc (c # cs) =
     (case digit_of c of None \<Rightarrow> None | Some d \<Rightarrow> decimal (10 * acc + d) cs)"

definition array_index :: "string \<Rightarrow> nat option" where
  "array_index s =
     (if s = [] then None
      else if hd s = CHR ''0'' \<and> tl s \<noteq> [] then None
      else case decimal 0 s of
             None \<Rightarrow> None
           | Some n \<Rightarrow> if n < 4294967295 then Some n else None)"

text \<open>
  The string-keyed members of the two built-in prototypes: those of \<^verbatim>\<open>Object.prototype\<close>,
  which every object and array inherits, and the methods of \<^verbatim>\<open>Array.prototype\<close> (as of
  ECMAScript 2023), which every array inherits; \<^verbatim>\<open>Array.prototype\<close> also has its own
  \<^verbatim>\<open>constructor\<close>, \<^verbatim>\<open>toString\<close> and \<^verbatim>\<open>toLocaleString\<close>, which hide those of
  \<^verbatim>\<open>Object.prototype\<close>.
\<close>

definition Object_prototype_keys :: "string list" where
  "Object_prototype_keys =
     [''constructor'', ''__defineGetter__'', ''__defineSetter__'', ''hasOwnProperty'',
      ''__lookupGetter__'', ''__lookupSetter__'', ''isPrototypeOf'', ''propertyIsEnumerable'',
      ''toString'', ''valueOf'', ''__proto__'', ''toLocaleString'']"

definition Array_prototype_keys :: "string list" where
  "Array_prototype_keys =
     [''at'', ''concat'', ''copyWithin'', ''fill'', ''find'', ''findIndex'', ''findLast'',
      ''findLastIndex'', ''lastIndexOf'', ''pop'', ''push'', ''reverse'', ''shift'', ''unshift'',
      ''slice'', ''sort'', ''splice'', ''includes'', ''indexOf'', ''join'', ''keys'', ''entries'',
      ''values'', ''forEach'', ''filter'', ''flat'', ''flatMap'', ''map'', ''every'', ''some'',
      ''reduce'', ''reduceRight'', ''toReversed'', ''toSorted'', ''toSpliced'', ''with'',
      ''toLocaleString'', ''toString'']"

text \<open>
  What a value whose prototype is \<open>proto\<close> finds under \<open>k\<close> on \<^verbatim>\<open>Object.prototype\<close>, and
  what an array finds on \<^verbatim>\<open>Array.prototype\<close> and beyond. The accessor \<^verbatim>\<open>__proto__\<close> yields
  the prototype of the value it is read from.
\<close>

definition object_member :: "jsval \<Rightarrow> string \<Rightarrow> jsval" where
  "object_member proto k =
     (if k = ''__proto__'' then proto
      else if k = ''constructor'' then VFunction ''Object''
      else if List.member Object_prototype_keys k then VFunction (''Object.prototype.'' @ k)
      else VUndefined)"

definition array_member :: "jsval \<Rightarrow> string \<Rightarrow> jsval" where
  "array_member proto k =
     (if k = ''constructor'' then VFunction ''Array''
      else if List.member Array_prototype_keys k then VFunction (''Array.prototype.'' @ k)
      else object_member proto k)"

text \<open>
  \<open>has_property k v\<close> is \<^verbatim>\<open>k in v\<close> and \<open>property v k\<close> is \<^verbatim>\<open>v[k]\<close>: own properties first
  (the entries of an object, the indices and \<^verbatim>\<open>length\<close> of an array), then the inherited
  members. The engine applies \<^verbatim>\<open>in\<close> only to a value whose \<^verbatim>\<open>typeof\<close> is \<^verbatim>\<open>object\<close> and
  that is not \<^verbatim>\<open>null\<close>, and \<open>has_property\<close> and \<open>property\<close> are exact on these for every
  key. From any other value the engine reads only \<^verbatim>\<open>min\<close>, \<^verbatim>\<open>max\<close>, \<^verbatim>\<open>start\<close>, \<^verbatim>\<open>end\<close> and
  \<^verbatim>\<open>length\<close>, and only when the value is a condition's value, which is data; a string has a
  \<^verbatim>\<open>length\<close>, and none of the five is a member that a string, number or boolean inherits.
  Reading a property of \<^verbatim>\<open>null\<close> or \<^verbatim>\<open>undefined\<close> raises (\<open>get_property\<close>).
\<close>

fun has_property :: "string \<Rightarrow> jsval \<Rightarrow> bool" where
  "has_property k (VObj kvs) = (map_of kvs k \<noteq> None \<or> List.member Object_prototype_keys k)"
| "has_property k (VArr xs) =
     (k = ''length''
      \<or> (case array_index k of None \<Rightarrow> False | Some i \<Rightarrow> i < length xs)
      \<or> List.member Array_prototype_keys k
      \<or> List.member Object_prototype_keys k)"
| "has_property k VObjectPrototype = List.member Object_prototype_keys k"
| "has_property k VArrayPrototype =
     (k = ''length''
      \<or> List.member Array_prototype_keys k
      \<or> List.member Object_prototype_keys k)"
| "has_property k v = False"

fun property :: "jsval \<Rightarrow> string \<Rightarrow> jsval" where
  "property (VObj kvs) k =
     (case map_of kvs k of None \<Rightarrow> object_member VObjectPrototype k | Some v \<Rightarrow> v)"
| "property (VArr xs) k =
     (if k = ''length'' then VNum (Num (real (length xs)))
      else case array_index k of
             None \<Rightarrow> array_member VArrayPrototype k
           | Some i \<Rightarrow> if i < length xs then xs ! i else VUndefined)"
| "property VObjectPrototype k = object_member VNull k"
| "property VArrayPrototype k =
     (if k = ''length'' then VNum (Num 0) else array_member VObjectPrototype k)"
| "property (VStr s) k =
     (if k = ''length'' then VNum (Num (real (length s)))
      else case array_index k of
             None \<Rightarrow> VUndefined
           | Some i \<Rightarrow> if i < length s then VStr [s ! i] else VUndefined)"
| "property v k = VUndefined"

fun get_property :: "jsval \<Rightarrow> string \<Rightarrow> error + jsval" where
  "get_property VUndefined k = Inl TypeError"
| "get_property VNull k = Inl TypeError"
| "get_property v k = Inr (property v k)"

section \<open>The run-time library\<close>

text \<open>
  What the engine calls but does not define is a parameter of the model: the string and
  number conversions of the JavaScript run time (\<open>FunctionToString\<close> gives the source text
  that \<^verbatim>\<open>String\<close> makes of the built-in function of a name), its regular-expression engine, the
  \<^verbatim>\<open>dayjs\<close> date library and the clock. A \<^verbatim>\<open>dayjs\<close> object is modelled by its time stamp,
  \<open>None\<close> for an invalid date. \<open>RegExp_new rt p flags\<close> is \<open>None\<close> when the constructor
  raises \<^verbatim>\<open>SyntaxError\<close> and otherwise the \<^verbatim>\<open>test\<close> method of the compiled pattern.
  \<open>dayjs_now\<close> is the clock reading \<^verbatim>\<open>dayjs()\<close>, taken as one instant for a whole pass.
\<close>

record runtime =
  toLowerCase :: "string \<Rightarrow> string"
  StringToNumber :: "string \<Rightarrow> jsnum"
  NumberToString :: "jsnum \<Rightarrow> string"
  FunctionToString :: "string \<Rightarrow> string"
  RegExp_new :: "string \<Rightarrow> string \<Rightarrow> (string \<Rightarrow> bool) option"
  dayjs :: "jsval \<Rightarrow> int option"
  dayjs_now :: int
  startOfDay :: "int \<Rightarrow> int"
  endOfDay :: "int \<Rightarrow> int"
  subtractDays :: "int \<Rightarrow> int \<Rightarrow> int"

text \<open>\<^verbatim>\<open>String(v)\<close> and \<^verbatim>\<open>Number(v)\<close>.\<close>

fun join :: "string \<Rightarrow> string list \<Rightarrow> string" where
  "join sep [] = []"
| "join sep [s] = s"
| "join sep (s # t # ss) = s @ sep @ join sep (t # ss)"

fun String_of :: "runtime \<Rightarrow> jsval \<Rightarrow> string" where
  "String_of rt VUndefined = ''undefined''"
| "String_of rt VNull = ''null''"
| "String_of rt (VBool b) = (if b then ''true'' else ''false'')"
| "String_of rt (VNum n) = NumberToString rt n"
| "String_of rt (VStr s) = s"
| "String_of rt (VArr xs) =
     join '','' (map (\<lambda>x. if x = VUndefined \<or> x = VNull then [] else String_of rt x) xs)"
| "String_of rt (VObj kvs) = ''[object Object]''"
| "String_of rt (VFunction f) = FunctionToString rt f"
| "String_of rt VObjectPrototype = ''[object Object]''"
| "String_of rt VArrayPrototype = []"

fun Number_of :: "runtime \<Rightarrow> jsval \<Rightarrow> jsnum" where
  "Number_of rt VUndefined = NaN"
| "Number_of rt VNull = Num 0"
| "Number_of rt (VBool b) = (if b then Num 1 else Num 0)"
| "Number_of rt (VNum n) = n"
| "Number_of rt (VStr s) = StringToNumber rt s"
| "Number_of rt v = StringToNumber rt (String_of rt v)"

text \<open>\<^verbatim>\<open>v ?? d\<close>\<close>

fun nullish_or :: "jsval \<Rightarrow> jsval \<Rightarrow> jsval" where
  "nullish_or VUndefined d = d"
| "nullish_or VNull d = d"
| "nullish_or v d = v"

text \<open>\<^verbatim>\<open>s.split(sep)\<close> for a one-character separator.\<close>

fun split :: "char \<Rightarrow> string \<Rightarrow> string list" where
  "split sep [] = [[]]"
| "split sep (c # cs) =
     (if c = sep then [] # split sep cs
      else case split sep cs of
             [] \<Rightarrow> [[c]]
           | w # ws \<Rightarrow> (c # w) # ws)"

text \<open>
  The array methods \<^verbatim>\<open>some\<close>, \<^verbatim>\<open>every\<close> and \<^verbatim>\<open>filter\<close> with a callback that may raise:
  they stop at the first element that decides the result, and an exception of the
  callback ends the call.
\<close>

fun Array_some :: "('a \<Rightarrow> error + bool) \<Rightarrow> 'a list \<Rightarrow> error + bool" where
  "Array_some f [] = Inr False"
| "Array_some f (x # xs) =
     (case f x of
        Inl e \<Rightarrow> Inl e
      | Inr b \<Rightarrow> if b then Inr True else Array_some f xs)"

fun Array_every :: "('a \<Rightarrow> error + bool) \<Rightarrow> 'a list \<Rightarrow> error + bool" where
  "Array_every f [] = Inr True"
| "Array_every f (x # xs) =
     (case f x of
        Inl e \<Rightarrow> Inl e
      | Inr b \<Rightarrow> if b then Array_every f xs else Inr False)"

fun Array_filter :: "('a \<Rightarrow> error + bool) \<Rightarrow> 'a list \<Rightarrow> error + 'a list" where
  "Array_filter f [] = Inr []"
| "Array_filter f (x # xs) =
     (case f x of
        Inl e \<Rightarrow> Inl e
      | Inr b \<Rightarrow>
          (case Array_filter f xs of
             Inl e \<Rightarrow> Inl e
           | Inr ys \<Rightarrow> Inr (if b then x # ys else ys)))"

text \<open>
  \<^verbatim>\<open>Object.entries\<close> of a plain object whose properties were created in the order of
  the list: the array-index keys first, in ascending numeric order, then the other keys
  in creation order.
\<close>

definition index_or_zero :: "string \<Rightarrow> nat" where
  "index_or_zero k = (case array_index k of None \<Rightarrow> 0 | Some i \<Rightarrow> i)"

definition Object_entries :: "(string \<times> 'a) list \<Rightarrow> (string \<times> 'a) list" where
  "Object_entries kvs =
     sort_key (\<lambda>kv. index_or_zero (fst kv)) (filter (\<lambda>kv. array_index (fst kv) \<noteq> None) kvs)
     @ filter (\<lambda>kv. array_index (fst kv) = None) kvs"

section \<open>The data model (types/filter.ts)\<close>

datatype FieldType = Text | Number | Date | Amount | SingleSelect | MultiSelect | Boolean

record SelectOption =
  option_label :: string
  option_value :: string

record FilterCondition =
  id' :: string
  fieldKey :: string
  operator :: string
  "value" :: jsval

record FieldDefinition =
  key :: string
  label :: string
  type :: FieldType
  options :: "SelectOption list option"
  nested :: "bool option"


section \<open>The engine (engine/filterEngine.ts)\<close>

subsection \<open>Nested value access\<close>

definition getNestedValue :: "jsval \<Rightarrow> string \<Rightarrow> jsval" where
  "getNestedValue obj path =
     foldl (\<lambda>acc k.
              if truthy acc \<and> typeof acc = ''object'' \<and> has_property k acc
              then property acc k
              else VUndefined)
           obj (split CHR ''.'' path)"

subsection \<open>Text matcher\<close>

text \<open>
  \<^verbatim>\<open>filterValue.toLowerCase()\<close> is called before the \<^verbatim>\<open>switch\<close>: a condition value that
  is not a string has no such method and the call raises, outside the \<^verbatim>\<open>try\<close> block.
\<close>

fun matchText :: "runtime \<Rightarrow> string \<Rightarrow> jsval \<Rightarrow> string \<Rightarrow> error + bool" where
  "matchText rt val (VStr filterValue) op =
     (let v = toLowerCase rt val;
          f = toLowerCase rt filterValue
      in if op = ''equals'' then Inr (v = f)
         else if op = ''contains'' then Inr (sublist f v)
         else if op = ''startsWith'' then Inr (prefix f v)
         else if op = ''endsWith'' then Inr (suffix f v)
         else if op = ''doesNotContain'' then Inr (\<not> sublist f v)
         else if op = ''regex'' then
           (case RegExp_new rt filterValue ''i'' of
              Some re \<Rightarrow> Inr (re val)
            | None \<Rightarrow> Inr False)
         else Inr False)"
| "matchText rt val filterValue op = Inl TypeError"

subsection \<open>Number and amount matchers\<close>

definition matchNumber :: "runtime \<Rightarrow> jsnum \<Rightarrow> jsval \<Rightarrow> string \<Rightarrow> error + bool" where
  "matchNumber rt val filterValue op =
     (if Number_isNaN val then Inr False
      else if op = ''numberBetween'' then
        (case get_property filterValue ''min'' of
           Inl e \<Rightarrow> Inl e
         | Inr range_min \<Rightarrow>
             (case get_property filterValue ''max'' of
                Inl e \<Rightarrow> Inl e
              | Inr range_max \<Rightarrow>
                  (let min' = (if strict_equals range_min (VStr '''') then NegInfinity
                               else Number_of rt range_min);
                       max' = (if strict_equals range_max (VStr '''') then PosInfinity
                               else Number_of rt range_max)
                   in Inr (num_le min' val \<and> num_le val max'))))
      else
        (let fv = Number_of rt filterValue
         in if Number_isNaN fv then Inr False
            else if op = ''eq'' then Inr (num_eq val fv)
            else if op = ''neq'' then Inr (\<not> num_eq val fv)
            else if op = ''gt'' then Inr (num_lt fv val)
            else if op = ''lt'' then Inr (num_lt val fv)
            else if op = ''gte'' then Inr (num_le fv val)
            else if op = ''lte'' then Inr (num_le val fv)
            else Inr False))"

definition matchAmountRange :: "runtime \<Rightarrow> jsnum \<Rightarrow> jsval \<Rightarrow> error + bool" where
  "matchAmountRange rt val range' =
     (if Number_isNaN val then Inr False
      else
        (case get_property range' ''min'' of
           Inl e \<Rightarrow> Inl e
         | Inr range_min \<Rightarrow>
             (case get_property range' ''max'' of
                Inl e \<Rightarrow> Inl e
              | Inr range_max \<Rightarrow>
                  (let min' = (if strict_equals range_min (VStr '''') then NegInfinity
                               else Number_of rt range_min);
                       max' = (if strict_equals range_max (VStr '''') then PosInfinity
                               else Number_of rt range_max)
                   in Inr (num_le min' val \<and> num_le val max')))))"

subsection \<open>Date matcher\<close>

text \<open>
  The comparison methods of \<^verbatim>\<open>dayjs\<close>, on time stamps; the receiver is a valid date, and a
  comparison with an invalid date is false. With the unit \<^verbatim>\<open>"day"\<close> the receiver's day,
  from \<open>startOfDay\<close> to \<open>endOfDay\<close>, is compared.
\<close>

definition isAfter :: "int \<Rightarrow> int option \<Rightarrow> bool" where
  "isAfter date that = (case that of None \<Rightarrow> False | Some t \<Rightarrow> t < date)"

definition isBefore :: "int \<Rightarrow> int option \<Rightarrow> bool" where
  "isBefore date that = (case that of None \<Rightarrow> False | Some t \<Rightarrow> date < t)"

definition isAfter_day :: "runtime \<Rightarrow> int \<Rightarrow> int option \<Rightarrow> bool" where
  "isAfter_day rt date that = (case that of None \<Rightarrow> False | Some t \<Rightarrow> t < startOfDay rt date)"

definition isBefore_day :: "runtime \<Rightarrow> int \<Rightarrow> int option \<Rightarrow> bool" where
  "isBefore_day rt date that = (case that of None \<Rightarrow> False | Some t \<Rightarrow> endOfDay rt date < t)"

definition isSame_day :: "runtime \<Rightarrow> int \<Rightarrow> int option \<Rightarrow> bool" where
  "isSame_day rt date that =
     (case that of None \<Rightarrow> False | Some t \<Rightarrow> startOfDay rt date \<le> t \<and> t \<le> endOfDay rt date)"

text \<open>\<^verbatim>\<open>x ? dayjs(x) : null\<close>: \<open>None\<close> is \<^verbatim>\<open>null\<close>, \<open>Some d\<close> a \<^verbatim>\<open>dayjs\<close> object.\<close>

definition dayjs_or_null :: "runtime \<Rightarrow> jsval \<Rightarrow> int option option" where
  "dayjs_or_null rt x = (if truthy x then Some (dayjs rt x) else None)"

definition matchDate :: "runtime \<Rightarrow> string \<Rightarrow> jsval \<Rightarrow> string \<Rightarrow> error + bool" where
  "matchDate rt val filterValue op =
     (case dayjs rt (VStr val) of
        None \<Rightarrow> Inr False
      | Some date \<Rightarrow>
          if op = ''between'' then
            (case get_property filterValue ''start'' of
               Inl e \<Rightarrow> Inl e
             | Inr range_start \<Rightarrow>
                 (case get_property filterValue ''end'' of
                    Inl e \<Rightarrow> Inl e
                  | Inr range_end \<Rightarrow>
                      (case (dayjs_or_null rt range_start, dayjs_or_null rt range_end) of
                         (Some start, Some end') \<Rightarrow>
                           Inr ((isAfter date start \<or> isSame_day rt date start) \<and>
                                (isBefore date end' \<or> isSame_day rt date end'))
                       | (Some start, None) \<Rightarrow> Inr (isAfter date start \<or> isSame_day rt date start)
                       | (None, Some end') \<Rightarrow> Inr (isBefore date end' \<or> isSame_day rt date end')
                       | (None, None) \<Rightarrow> Inr True)))
          else if op = ''before'' then
            (case get_property filterValue ''end'' of
               Inl e \<Rightarrow> Inl e
             | Inr range_end \<Rightarrow>
                 (case get_property filterValue ''start'' of
                    Inl e \<Rightarrow> Inl e
                  | Inr range_start \<Rightarrow>
                      (let end' = (if truthy range_end then Some (dayjs rt range_end)
                                   else dayjs_or_null rt range_start)
                       in case end' of
                            Some e \<Rightarrow> Inr (isBefore_day rt date e)
                          | None \<Rightarrow> Inr True)))
          else if op = ''after'' then
            (case get_property filterValue ''start'' of
               Inl e \<Rightarrow> Inl e
             | Inr range_start \<Rightarrow>
                 (case get_property filterValue ''end'' of
                    Inl e \<Rightarrow> Inl e
                  | Inr range_end \<Rightarrow>
                      (let start = (if truthy range_start then Some (dayjs rt range_start)
                                    else dayjs_or_null rt range_end)
                       in case start of
                            Some s \<Rightarrow> Inr (isAfter_day rt date s)
                          | None \<Rightarrow> Inr True)))
          else if op = ''last7days'' then
            Inr (isAfter date (Some (subtractDays rt (dayjs_now rt) 7)))
          else if op = ''last30days'' then
            Inr (isAfter date (Some (subtractDays rt (dayjs_now rt) 30)))
          else if op = ''last90days'' then
            Inr (isAfter date (Some (subtractDays rt (dayjs_now rt) 90)))
          else Inr False)"

subsection \<open>Select and boolean matchers\<close>

definition matchSingleSelect :: "string \<Rightarrow> jsval \<Rightarrow> string \<Rightarrow> bool" where
  "matchSingleSelect val filterValue op =
     (if op = ''is'' then strict_equals (VStr val) filterValue
      else if op = ''isNot'' then \<not> strict_equals (VStr val) filterValue
      else False)"

text \<open>
  \<^verbatim>\<open>filterValues.some\<close> and \<^verbatim>\<open>filterValues.every\<close> exist on arrays only; on any other
  value the call raises.
\<close>

fun array_elements :: "jsval \<Rightarrow> error + jsval list" where
  "array_elements v = (if Array_isArray v then Inr (array_items v) else Inl TypeError)"

fun matchMultiSelect :: "jsval \<Rightarrow> jsval \<Rightarrow> string \<Rightarrow> error + bool" where
  "matchMultiSelect vals filterValues op =
     (if \<not> Array_isArray vals then Inr False
      else
        (case get_property filterValues ''length'' of
           Inl e \<Rightarrow> Inl e
         | Inr n \<Rightarrow>
             if strict_equals n (VNum (Num 0)) then Inr True
             else if op = ''in'' then
               (case array_elements filterValues of
                  Inl e \<Rightarrow> Inl e
                | Inr fvs \<Rightarrow> Inr (list_ex (\<lambda>fv. Array_includes (array_items vals) fv) fvs))
             else if op = ''notIn'' then
               (case array_elements filterValues of
                  Inl e \<Rightarrow> Inl e
                | Inr fvs \<Rightarrow> Inr (\<not> list_ex (\<lambda>fv. Array_includes (array_items vals) fv) fvs))
             else if op = ''all'' then
               (case array_elements filterValues of
                  Inl e \<Rightarrow> Inl e
                | Inr fvs \<Rightarrow> Inr (list_all (\<lambda>fv. Array_includes (array_items vals) fv) fvs))
             else Inr False))"

definition matchBoolean :: "jsval \<Rightarrow> jsval \<Rightarrow> bool" where
  "matchBoolean val filterValue = strict_equals (VBool (truthy val)) filterValue"

subsection \<open>Validation\<close>

definition isValidFilter :: "FilterCondition \<Rightarrow> bool" where
  "isValidFilter condition =
     (if fieldKey condition = '''' \<or> operator condition = '''' then False
      else if List.member [''last7days'', ''last30days'', ''last90days''] (operator condition)
      then True
      else
        (let v = value condition
         in if v = VUndefined \<or> v = VNull then False
            else if typeof v = ''string'' \<and> strict_equals v (VStr '''') then False
            else if Array_isArray v \<and> strict_equals (property v ''length'') (VNum (Num 0))
            then False
            else if typeof v = ''object'' \<and> has_property ''start'' v \<and> has_property ''end'' v
            then \<not> strict_equals (property v ''start'') (VStr '''')
                 \<or> \<not> strict_equals (property v ''end'') (VStr '''')
            else if typeof v = ''object'' \<and> has_property ''min'' v \<and> has_property ''max'' v
            then \<not> strict_equals (property v ''min'') (VStr '''')
                 \<or> \<not> strict_equals (property v ''max'') (VStr '''')
            else True))"

subsection \<open>Condition dispatcher\<close>

text \<open>
  \<open>FieldType\<close> is closed, so the \<^verbatim>\<open>default\<close> branch of the \<^verbatim>\<open>switch\<close> has no case here.
\<close>

definition matchCondition ::
  "runtime \<Rightarrow> jsval \<Rightarrow> FilterCondition \<Rightarrow> FieldDefinition \<Rightarrow> error + bool" where
  "matchCondition rt record condition fieldDef =
     (let rawValue = getNestedValue record (fieldKey condition)
      in case type fieldDef of
           Text \<Rightarrow>
             matchText rt (String_of rt (nullish_or rawValue (VStr '''')))
               (value condition) (operator condition)
         | Number \<Rightarrow>
             matchNumber rt (Number_of rt rawValue) (value condition) (operator condition)
         | Date \<Rightarrow>
             matchDate rt (String_of rt (nullish_or rawValue (VStr '''')))
               (value condition) (operator condition)
         | Amount \<Rightarrow> matchAmountRange rt (Number_of rt rawValue) (value condition)
         | SingleSelect \<Rightarrow>
             Inr (matchSingleSelect (String_of rt (nullish_or rawValue (VStr '''')))
                    (value condition) (operator condition))
         | MultiSelect \<Rightarrow>
             matchMultiSelect (if Array_isArray rawValue then rawValue else VArr [])
               (value condition) (operator condition)
         | Boolean \<Rightarrow> Inr (matchBoolean rawValue (value condition)))"

subsection \<open>Main entry point\<close>

text \<open>
  \<open>fieldMap\<close> is the \<^verbatim>\<open>Map\<close> built from the definitions (a later definition of a key
  replaces an earlier one).

  \<open>groupedByField\<close> is the \<^verbatim>\<open>reduce\<close> that groups the valid conditions; its accumulator,
  a plain object that starts as \<^verbatim>\<open>{}\<close>, is the list of its own properties in creation
  order. \<open>group_push\<close> is the callback. \<^verbatim>\<open>acc[key]\<close> is the group when the accumulator has
  one for the key. Otherwise, for a key that names a member of \<^verbatim>\<open>Object.prototype\<close>,
  \<^verbatim>\<open>acc[key]\<close> is that inherited member: it is truthy, so no group is created, and it has no
  \<^verbatim>\<open>push\<close>, so \<^verbatim>\<open>acc[key].push(condition)\<close> raises. For any other key \<^verbatim>\<open>acc[key]\<close> is
  \<^verbatim>\<open>undefined\<close> and a new group is created.
\<close>

definition fieldMap :: "FieldDefinition list \<Rightarrow> string \<Rightarrow> FieldDefinition option" where
  "fieldMap fieldDefinitions = map_of (rev (map (\<lambda>fd. (key fd, fd)) fieldDefinitions))"

fun Array_reduce :: "('b \<Rightarrow> 'a \<Rightarrow> error + 'b) \<Rightarrow> 'b \<Rightarrow> 'a list \<Rightarrow> error + 'b" where
  "Array_reduce f acc [] = Inr acc"
| "Array_reduce f acc (x # xs) =
     (case f acc x of
        Inl e \<Rightarrow> Inl e
      | Inr acc' \<Rightarrow> Array_reduce f acc' xs)"

definition group_push ::
  "(string \<times> FilterCondition list) list \<Rightarrow> FilterCondition
     \<Rightarrow> error + (string \<times> FilterCondition list) list" where
  "group_push acc condition =
     (let k = fieldKey condition
      in case map_of acc k of
           Some cs \<Rightarrow> Inr (map (\<lambda>kv. if fst kv = k then (k, snd kv @ [condition]) else kv) acc)
         | None \<Rightarrow>
             if List.member Object_prototype_keys k then Inl TypeError
             else Inr (acc @ [(k, [condition])]))"

definition groupedByField ::
  "FilterCondition list \<Rightarrow> error + (string \<times> FilterCondition list) list" where
  "groupedByField validConditions = Array_reduce group_push [] validConditions"

definition applyFilters ::
  "runtime \<Rightarrow> jsval list \<Rightarrow> FilterCondition list \<Rightarrow> FieldDefinition list
     \<Rightarrow> error + jsval list" where
  "applyFilters rt data conditions fieldDefinitions =
     (let validConditions = filter isValidFilter conditions
      in if length validConditions = 0 then Inr data
         else
           (case groupedByField validConditions of
              Inl e \<Rightarrow> Inl e
            | Inr groups \<Rightarrow>
                Array_filter
                  (\<lambda>record.
                     Array_every
                       (\<lambda>entry.
                          case fieldMap fieldDefinitions (fst entry) of
                            None \<Rightarrow> Inr True
                          | Some fieldDef \<Rightarrow>
                              Array_some
                                (\<lambda>condition. matchCondition rt record condition fieldDef)
                                (snd entry))
                       (Object_entries groups))
                  data))"

section \<open>What the specification says about a pass\<close>

text \<open>
  \<open>groups_of\<close> is the grouping when no key raises, with \<open>push_group\<close> for the step, and
  \<open>record_passes\<close> names the callback that \<open>applyFilters\<close> hands to \<^verbatim>\<open>data.filter\<close>, on
  these groups.
\<close>

definition push_group ::
  "(string \<times> FilterCondition list) list \<Rightarrow> FilterCondition
     \<Rightarrow> (string \<times> FilterCondition list) list" where
  "push_group acc condition =
     (let k = fieldKey condition
      in case map_of acc k of
           None \<Rightarrow> acc @ [(k, [condition])]
         | Some cs \<Rightarrow> map (\<lambda>kv. if fst kv = k then (k, snd kv @ [condition]) else kv) acc)"

definition groups_of :: "FilterCondition list \<Rightarrow> (string \<times> FilterCondition list) list" where
  "groups_of validConditions = foldl push_group [] validConditions"

definition record_passes ::
  "runtime \<Rightarrow> FieldDefinition list \<Rightarrow> FilterCondition list \<Rightarrow> jsval \<Rightarrow> error + bool" where
  "record_passes rt fieldDefinitions validConditions record =
     Array_every
       (\<lambda>entry.
          case fieldMap fieldDefinitions (fst entry) of
            None \<Rightarrow> Inr True
          | Some fieldDef \<Rightarrow>
              Array_some (\<lambda>condition. matchCondition rt record condition fieldDef) (snd entry))
       (Object_entries (groups_of validConditions))"

text \<open>
  The specification's reading of the filter pass (steps 4 and 5 of its section 4.5), written
  without grouping, ordering or short-circuit evaluation. The group of a field key is
  satisfied by a record when the key has no field definition, or when one of the valid
  conditions with that key matches the record. A record is kept when the group of every
  valid condition is satisfied.
\<close>

definition group_satisfied ::
  "runtime \<Rightarrow> FieldDefinition list \<Rightarrow> FilterCondition list \<Rightarrow> jsval \<Rightarrow> string \<Rightarrow> bool" where
  "group_satisfied rt fieldDefinitions validConditions record k =
     (case fieldMap fieldDefinitions k of
        None \<Rightarrow> True
      | Some fieldDef \<Rightarrow>
          list_ex (\<lambda>c. fieldKey c = k \<and> matchCondition rt record c fieldDef = Inr True)
            validConditions)"

definition kept ::
  "runtime \<Rightarrow> FilterCondition list \<Rightarrow> FieldDefinition list \<Rightarrow> jsval \<Rightarrow> bool" where
  "kept rt conditions fieldDefinitions record =
     (let validConditions = filter isValidFilter conditions
      in list_all (\<lambda>c. group_satisfied rt fieldDefinitions validConditions record (fieldKey c))
           validConditions)"

text \<open>
  Nothing raises: no valid condition has a field key that names a member of
  \<^verbatim>\<open>Object.prototype\<close>, on which the grouping raises, and every valid condition whose field
  has a definition evaluates to a boolean on every record of the data set.
\<close>

definition inherited_key :: "FilterCondition \<Rightarrow> bool" where
  "inherited_key c = List.member Object_prototype_keys (fieldKey c)"

definition evaluates ::
  "runtime \<Rightarrow> jsval list \<Rightarrow> FilterCondition list \<Rightarrow> FieldDefinition list \<Rightarrow> bool" where
  "evaluates rt data conditions fieldDefinitions =
     (list_all (\<lambda>c. \<not> inherited_key c) (filter isValidFilter conditions) \<and>
      list_all
        (\<lambda>record.
           list_all
             (\<lambda>c. case fieldMap fieldDefinitions (fieldKey c) of
                    None \<Rightarrow> True
                  | Some fieldDef \<Rightarrow> \<not> isl (matchCondition rt record c fieldDef))
             (filter isValidFilter conditions))
        data)"

section \<open>A run time and data for concrete evaluation\<close>

text \<open>
  The theorems below hold for every run time. To evaluate the model on concrete inputs a
  run time is fixed here. It agrees with JavaScript on what the examples use: ASCII
  letters, unsigned decimal numerals, whole non-negative numbers, and patterns made of
  letters, digits and spaces, which match literally. It rejects every other pattern (the
  examples use only the unbalanced \<^verbatim>\<open>(\<close>, which JavaScript rejects too), it prints
  a built-in function as V8 does, and it knows no date format.
\<close>

definition ascii_lower :: "char \<Rightarrow> char" where
  "ascii_lower c =
     (case map_of (zip ''ABCDEFGHIJKLMNOPQRSTUVWXYZ'' ''abcdefghijklmnopqrstuvwxyz'') c of
        None \<Rightarrow> c
      | Some l \<Rightarrow> l)"

definition literal_char :: "char \<Rightarrow> bool" where
  "literal_char c =
     List.member ''abcdefghijklmnopqrstuvwxyzABCDEFGHIJKLMNOPQRSTUVWXYZ0123456789 '' c"

fun nat_string :: "nat \<Rightarrow> string" where
  "nat_string n =
     (if n < 10 then [''0123456789'' ! n]
      else nat_string (n div 10) @ [''0123456789'' ! (n mod 10)])"

definition sample_runtime :: runtime where
  "sample_runtime =
     \<lparr> toLowerCase = map ascii_lower,
       StringToNumber = (\<lambda>s. case decimal 0 s of None \<Rightarrow> NaN | Some n \<Rightarrow> Num (real n)),
       NumberToString =
         (\<lambda>n. case n of
                 NaN \<Rightarrow> ''NaN''
               | NegInfinity \<Rightarrow> ''-Infinity''
               | Num x \<Rightarrow> nat_string (nat \<lfloor>x\<rfloor>)
               | PosInfinity \<Rightarrow> ''Infinity''),
       FunctionToString =
         (\<lambda>f. ''function '' @ last (split CHR ''.'' f) @ ''() { [native code] }''),
       RegExp_new =
         (\<lambda>p flags.
            if list_all literal_char p
            then Some (\<lambda>s. if flags = ''i'' then sublist (map ascii_lower p) (map ascii_lower s)
                            else sublist p s)
            else None),
       dayjs = (\<lambda>v. None),
       dayjs_now = 0,
       startOfDay = (\<lambda>t. t - t mod 86400000),
       endOfDay = (\<lambda>t. t - t mod 86400000 + 86399999),
       subtractDays = (\<lambda>t n. t - n * 86400000) \<rparr>"

text \<open>Five employees; Dave has no \<^verbatim>\<open>isActive\<close> and a string where the skills list belongs.\<close>

definition alice :: jsval where
  "alice = VObj [(''name'', VStr ''Alice''), (''department'', VStr ''Engineering''),
                 (''isActive'', VBool True)]"

definition bob :: jsval where
  "bob = VObj [(''name'', VStr ''Bob''), (''department'', VStr ''Sales''),
               (''isActive'', VBool False)]"

definition carol :: jsval where
  "carol = VObj [(''name'', VStr ''Carol''), (''department'', VStr ''Marketing''),
                 (''isActive'', VBool True)]"

definition dave :: jsval where
  "dave = VObj [(''name'', VStr ''Dave''), (''skills'', VStr ''React'')]"


definition department_field :: FieldDefinition where
  "department_field =
     \<lparr> key = ''department'', label = ''Department'', type = SingleSelect,
       options = None, nested = None \<rparr>"

definition isActive_field :: FieldDefinition where
  "isActive_field =
     \<lparr> key = ''isActive'', label = ''Is Active'', type = Boolean, options = None, nested = None \<rparr>"

definition skills_field :: FieldDefinition where
  "skills_field =
     \<lparr> key = ''skills'', label = ''Skills'', type = MultiSelect, options = None, nested = None \<rparr>"



definition new_row :: FilterCondition where
  "new_row = \<lparr> id' = ''f0'', fieldKey = '''', operator = '''', value = VStr '''' \<rparr>"

definition department_is_engineering :: FilterCondition where
  "department_is_engineering =
     \<lparr> id' = ''f1'', fieldKey = ''department'', operator = ''is'', value = VStr ''Engineering'' \<rparr>"

definition department_is_sales :: FilterCondition where
  "department_is_sales =
     \<lparr> id' = ''f2'', fieldKey = ''department'', operator = ''is'', value = VStr ''Sales'' \<rparr>"

definition isActive_is_true :: FilterCondition where
  "isActive_is_true =
     \<lparr> id' = ''f3'', fieldKey = ''isActive'', operator = ''is'', value = VBool True \<rparr>"

definition ghost :: FilterCondition where
  "ghost = \<lparr> id' = ''f4'', fieldKey = ''ghost'', operator = ''equals'', value = VStr ''x'' \<rparr>"

definition isActive_is_false :: FilterCondition where
  "isActive_is_false =
     \<lparr> id' = ''f5'', fieldKey = ''isActive'', operator = ''is'', value = VBool False \<rparr>"

definition skills_notIn :: FilterCondition where
  "skills_notIn =
     \<lparr> id' = ''f6'', fieldKey = ''skills'', operator = ''notIn'', value = VArr [VStr ''Go''] \<rparr>"




definition constructor_equals_x :: FilterCondition where
  "constructor_equals_x =
     \<lparr> id' = ''f11'', fieldKey = ''constructor'', operator = ''equals'', value = VStr ''x'' \<rparr>"


section \<open>Auxiliary facts\<close>

subsection \<open>Array methods with a raising callback\<close>

lemma Array_some_True: "Array_some f xs = Inr True \<Longrightarrow> \<exists>x\<in>set xs. f x = Inr True"
  by (induction xs) (auto split: sum.splits if_splits)

lemma Array_some_False: "Array_some f xs = Inr False \<Longrightarrow> \<forall>x\<in>set xs. f x = Inr False"
  by (induction xs) (auto split: sum.splits if_splits)

lemma Array_some_total:
  "\<forall>x\<in>set xs. \<not> isl (f x) \<Longrightarrow> Array_some f xs = Inr (\<exists>x\<in>set xs. f x = Inr True)"
  by (induction xs) (auto split: sum.splits if_splits)

lemma Array_every_True: "Array_every f xs = Inr True \<Longrightarrow> \<forall>x\<in>set xs. f x = Inr True"
  by (induction xs) (auto split: sum.splits if_splits)

lemma Array_every_False: "Array_every f xs = Inr False \<Longrightarrow> \<exists>x\<in>set xs. f x = Inr False"
  by (induction xs) (auto split: sum.splits if_splits)

lemma Array_every_total:
  "\<forall>x\<in>set xs. \<not> isl (f x) \<Longrightarrow> Array_every f xs = Inr (\<forall>x\<in>set xs. f x = Inr True)"
  by (induction xs) (auto split: sum.splits if_splits)

lemma Array_every_filter:
  "\<forall>x\<in>set xs. \<not> P x \<longrightarrow> f x = Inr True \<Longrightarrow> Array_every f (filter P xs) = Array_every f xs"
  by (induction xs) (auto split: sum.splits if_splits)

lemma Array_filter_Inr:
  "Array_filter f xs = Inr ys \<Longrightarrow>
     ys = filter (\<lambda>x. f x = Inr True) xs \<and> (\<forall>x\<in>set xs. \<not> isl (f x))"
  by (induction xs arbitrary: ys) (auto split: sum.splits if_splits)

lemma Array_filter_total:
  "\<forall>x\<in>set xs. \<not> isl (f x) \<Longrightarrow> Array_filter f xs = Inr (filter (\<lambda>x. f x = Inr True) xs)"
  by (induction xs) (auto split: sum.splits if_splits)

lemma Array_filter_all_True: "\<forall>x\<in>set xs. f x = Inr True \<Longrightarrow> Array_filter f xs = Inr xs"
  by (induction xs) auto

subsection \<open>Grouping\<close>

lemma groups_of_snoc: "groups_of (cs @ [c]) = push_group (groups_of cs) c"
  by (simp add: groups_of_def)

lemma map_of_push_group:
  "map_of (push_group acc c) k =
     (if k = fieldKey c
      then Some (case map_of acc k of None \<Rightarrow> [c] | Some cs \<Rightarrow> cs @ [c])
      else map_of acc k)"
proof (cases "map_of acc (fieldKey c)")
  case None
  then show ?thesis
    by (auto simp: push_group_def Let_def map_add_def split: option.splits)
next
  case (Some cs)
  have "map_of (map (\<lambda>kv. if fst kv = k' then (k', snd kv @ [c]) else kv) acc) k =
        (if k = k' then map_option (\<lambda>v. v @ [c]) (map_of acc k) else map_of acc k)" for k'
    by (induction acc) auto
  with Some show ?thesis by (auto simp: push_group_def Let_def)
qed

lemma map_fst_push_group:
  "map fst (push_group acc c) =
     (if fieldKey c \<in> set (map fst acc) then map fst acc else map fst acc @ [fieldKey c])"
proof -
  have "map fst (map (\<lambda>kv. if fst kv = k' then (k', snd kv @ [c]) else kv) acc) = map fst acc"
    for k'
    by (induction acc) auto
  moreover have "map_of acc (fieldKey c) = None \<longleftrightarrow> fieldKey c \<notin> set (map fst acc)"
    by (simp add: map_of_eq_None_iff)
  ultimately show ?thesis
    by (cases "map_of acc (fieldKey c)") (auto simp: push_group_def Let_def)
qed

lemma map_of_groups_of:
  "map_of (groups_of cs) k =
     (if k \<in> fieldKey ` set cs then Some (filter (\<lambda>c. fieldKey c = k) cs) else None)"
proof (induction cs rule: rev_induct)
  case Nil
  then show ?case by (simp add: groups_of_def)
next
  case (snoc c cs)
  then show ?case
    by (auto simp: groups_of_snoc map_of_push_group filter_empty_conv) (metis imageI)+
qed

lemma distinct_groups_of: "distinct (map fst (groups_of cs))"
proof (induction cs rule: rev_induct)
  case Nil
  then show ?case by (simp add: groups_of_def)
next
  case (snoc c cs)
  then show ?case
    by (auto simp: groups_of_snoc map_fst_push_group)
qed

lemma set_groups_of:
  "(k, g) \<in> set (groups_of cs) \<longleftrightarrow>
     k \<in> fieldKey ` set cs \<and> g = filter (\<lambda>c. fieldKey c = k) cs"
proof -
  have "(k, g) \<in> set (groups_of cs) \<longleftrightarrow> map_of (groups_of cs) k = Some g"
    using distinct_groups_of by (simp add: map_of_eq_Some_iff)
  then show ?thesis by (auto simp: map_of_groups_of)
qed

lemma set_Object_entries: "set (Object_entries kvs) = set kvs"
  by (auto simp: Object_entries_def)

lemma Object_entries_single: "Object_entries [kv] = [kv]"
  by (cases "array_index (fst kv)") (simp_all add: Object_entries_def)

lemma Object_entries_filter: "Object_entries (filter Q kvs) = filter Q (Object_entries kvs)"
  by (simp add: Object_entries_def filter_sort conj_commute)

lemma fieldMap_None: "fieldMap fds k = None \<longleftrightarrow> k \<notin> key ` set fds"
  by (simp add: fieldMap_def map_of_eq_None_iff image_image)

lemma map_of_filter_key: "P k \<Longrightarrow> map_of (filter (\<lambda>kv. P (fst kv)) acc) k = map_of acc k"
  by (induction acc) auto

lemma filter_push_group:
  "filter (\<lambda>kv. P (fst kv)) (push_group acc c) =
     (if P (fieldKey c) then push_group (filter (\<lambda>kv. P (fst kv)) acc) c
      else filter (\<lambda>kv. P (fst kv)) acc)"
proof (cases "P (fieldKey c)")
  case True
  have "filter (\<lambda>kv. P (fst kv)) (map (\<lambda>kv. if fst kv = k then (k, snd kv @ [c]) else kv) acc) =
        map (\<lambda>kv. if fst kv = k then (k, snd kv @ [c]) else kv) (filter (\<lambda>kv. P (fst kv)) acc)"
    for k
    by (induction acc) auto
  with True show ?thesis
    by (auto simp: push_group_def Let_def map_of_filter_key split: option.splits)
next
  case False
  have "filter (\<lambda>kv. P (fst kv)) (map (\<lambda>kv. if fst kv = k then (k, snd kv @ [c]) else kv) acc) =
        filter (\<lambda>kv. P (fst kv)) acc" if "\<not> P k" for k
    using that by (induction acc) auto
  with False show ?thesis
    by (auto simp: push_group_def Let_def split: option.splits)
qed

lemma groups_of_filter:
  "groups_of (filter (\<lambda>c. P (fieldKey c)) cs) =
     filter (\<lambda>kv. P (fst kv)) (groups_of cs)"
proof (induction cs rule: rev_induct)
  case Nil
  then show ?case by (simp add: groups_of_def)
next
  case (snoc c cs)
  then show ?case
    by (simp add: groups_of_snoc filter_push_group)
qed

subsection \<open>One record against the grouped conditions\<close>

lemma group_push_eq:
  assumes "\<forall>k\<in>set (map fst acc). \<not> List.member Object_prototype_keys k"
  shows "group_push acc c = (if inherited_key c then Inl TypeError else Inr (push_group acc c))"
proof (cases "inherited_key c")
  case True
  with assms have "fieldKey c \<notin> set (map fst acc)"
    by (auto simp: inherited_key_def)
  then have "map_of acc (fieldKey c) = None"
    by (simp add: map_of_eq_None_iff)
  with True show ?thesis
    by (simp add: group_push_def inherited_key_def Let_def)
next
  case False
  then show ?thesis
    by (auto simp: group_push_def push_group_def inherited_key_def Let_def split: option.splits)
qed

lemma Array_reduce_group_push:
  assumes "\<forall>k\<in>set (map fst acc). \<not> List.member Object_prototype_keys k"
  shows "Array_reduce group_push acc cs =
           (if list_ex inherited_key cs then Inl TypeError else Inr (foldl push_group acc cs))"
  using assms
proof (induction cs arbitrary: acc)
  case Nil
  then show ?case by simp
next
  case (Cons c cs)
  show ?case
  proof (cases "inherited_key c")
    case True
    with Cons.prems show ?thesis by (simp add: group_push_eq)
  next
    case False
    then have "\<forall>k\<in>set (map fst (push_group acc c)). \<not> List.member Object_prototype_keys k"
      using Cons.prems by (auto simp: map_fst_push_group inherited_key_def split: if_splits)
    from Cons.IH [OF this] False Cons.prems show ?thesis
      by (simp add: group_push_eq)
  qed
qed

lemma groupedByField_eq:
  "groupedByField cs = (if list_ex inherited_key cs then Inl TypeError else Inr (groups_of cs))"
  by (simp add: groupedByField_def groups_of_def Array_reduce_group_push)

lemma applyFilters_unfold:
  "applyFilters rt data conditions fds =
     (if filter isValidFilter conditions = [] then Inr data
      else if list_ex inherited_key (filter isValidFilter conditions) then Inl TypeError
      else Array_filter (record_passes rt fds (filter isValidFilter conditions)) data)"
  unfolding applyFilters_def record_passes_def Let_def
  by (simp add: groupedByField_eq)

lemma record_passes_sound:
  assumes "record_passes rt fds vs r = Inr b"
  shows "b = list_all (\<lambda>c. group_satisfied rt fds vs r (fieldKey c)) vs"
proof (cases b)
  case True
  have "group_satisfied rt fds vs r (fieldKey c)" if c: "c \<in> set vs" for c
  proof (cases "fieldMap fds (fieldKey c)")
    case None
    then show ?thesis by (simp add: group_satisfied_def)
  next
    case (Some fd)
    let ?g = "filter (\<lambda>c'. fieldKey c' = fieldKey c) vs"
    have "(fieldKey c, ?g) \<in> set (Object_entries (groups_of vs))"
      using c by (simp add: set_Object_entries set_groups_of)
    with assms True Some
    have "Array_some (\<lambda>condition. matchCondition rt r condition fd) ?g = Inr True"
      unfolding record_passes_def by (auto dest!: Array_every_True)
    then obtain c' where "c' \<in> set ?g" "matchCondition rt r c' fd = Inr True"
      by (auto dest!: Array_some_True)
    with Some show ?thesis
      by (auto simp: group_satisfied_def list_ex_iff)
  qed
  with True show ?thesis by (simp add: list_all_iff)
next
  case False
  with assms have "record_passes rt fds vs r = Inr False" by simp
  from Array_every_False [OF this [unfolded record_passes_def]] obtain entry where
    e: "entry \<in> set (Object_entries (groups_of vs))" and
    r0: "(case fieldMap fds (fst entry) of
            None \<Rightarrow> Inr True
          | Some fd \<Rightarrow> Array_some (\<lambda>condition. matchCondition rt r condition fd) (snd entry))
         = Inr False"
    by blast
  define k where "k = fst entry"
  define g where "g = snd entry"
  from e have kg: "(k, g) \<in> set (Object_entries (groups_of vs))"
    by (simp add: k_def g_def)
  from r0 have res:
    "(case fieldMap fds k of
        None \<Rightarrow> Inr True
      | Some fd \<Rightarrow> Array_some (\<lambda>condition. matchCondition rt r condition fd) g) = Inr False"
    by (simp only: k_def g_def)
  from kg have k: "k \<in> fieldKey ` set vs" and g: "g = filter (\<lambda>c. fieldKey c = k) vs"
    by (simp_all add: set_Object_entries set_groups_of)
  from res obtain fd where fd: "fieldMap fds k = Some fd"
    and "Array_some (\<lambda>condition. matchCondition rt r condition fd) g = Inr False"
    by (auto split: option.splits)
  then have "\<forall>c\<in>set g. matchCondition rt r c fd = Inr False"
    by (auto dest!: Array_some_False)
  with g fd have "\<not> group_satisfied rt fds vs r k"
    by (auto simp: group_satisfied_def list_ex_iff)
  with k have "\<not> list_all (\<lambda>c. group_satisfied rt fds vs r (fieldKey c)) vs"
    by (auto simp: list_all_iff)
  with False show ?thesis by simp
qed

lemma record_passes_total:
  assumes "\<forall>c\<in>set vs. case fieldMap fds (fieldKey c) of
                         None \<Rightarrow> True
                       | Some fd \<Rightarrow> \<not> isl (matchCondition rt r c fd)"
  shows "\<not> isl (record_passes rt fds vs r)"
proof -
  have "\<not> isl (case fieldMap fds (fst entry) of
                 None \<Rightarrow> Inr True
               | Some fd \<Rightarrow>
                   Array_some (\<lambda>condition. matchCondition rt r condition fd) (snd entry))"
    if "entry \<in> set (Object_entries (groups_of vs))" for entry
  proof (cases "fieldMap fds (fst entry)")
    case None
    then show ?thesis by simp
  next
    case (Some fd)
    from that have "snd entry = filter (\<lambda>c. fieldKey c = fst entry) vs"
      using set_groups_of [of "fst entry" "snd entry" vs] by (simp add: set_Object_entries)
    with assms Some have "\<forall>c\<in>set (snd entry). \<not> isl (matchCondition rt r c fd)"
      by auto
    then show ?thesis using Some by (simp add: Array_some_total)
  qed
  then show ?thesis
    unfolding record_passes_def by (simp add: Array_every_total)
qed

lemma record_passes_defined_only:
  "record_passes rt fds (filter (\<lambda>c. List.member (map key fds) (fieldKey c)) vs) r =
     record_passes rt fds vs r"
proof -
  let ?P = "\<lambda>k. List.member (map key fds) k"
  let ?f = "\<lambda>entry :: string \<times> FilterCondition list.
              case fieldMap fds (fst entry) of
                None \<Rightarrow> Inr True
              | Some fieldDef \<Rightarrow>
                  Array_some (\<lambda>condition. matchCondition rt r condition fieldDef) (snd entry)"
  have entries: "Object_entries (groups_of (filter (\<lambda>c. ?P (fieldKey c)) vs)) =
        filter (\<lambda>kv. ?P (fst kv)) (Object_entries (groups_of vs))"
    by (simp only: groups_of_filter [of ?P] Object_entries_filter)
  have "\<forall>entry\<in>set (Object_entries (groups_of vs)).
          \<not> ?P (fst entry) \<longrightarrow> ?f entry = Inr True"
    by (simp add: fieldMap_None [THEN iffD2])
  then have "Array_every ?f (filter (\<lambda>kv. ?P (fst kv)) (Object_entries (groups_of vs))) =
             Array_every ?f (Object_entries (groups_of vs))"
    by (rule Array_every_filter)
  with entries show ?thesis
    unfolding record_passes_def by simp
qed

subsection \<open>The pass\<close>

lemma applyFilters_sound:
  assumes "applyFilters rt data conditions fds = Inr out"
  shows "out = filter (kept rt conditions fds) data"
proof (cases "filter isValidFilter conditions = []")
  case True
  with assms show ?thesis by (simp add: applyFilters_unfold kept_def Let_def)
next
  case False
  let ?vs = "filter isValidFilter conditions"
  from assms False have af: "Array_filter (record_passes rt fds ?vs) data = Inr out"
    by (simp add: applyFilters_unfold split: if_splits)
  then have out: "out = filter (\<lambda>r. record_passes rt fds ?vs r = Inr True) data"
    and ok: "\<forall>r\<in>set data. \<not> isl (record_passes rt fds ?vs r)"
    by (auto dest: Array_filter_Inr)
  have "(record_passes rt fds ?vs r = Inr True) = kept rt conditions fds r"
    if "r \<in> set data" for r
  proof -
    from ok that obtain b where b: "record_passes rt fds ?vs r = Inr b"
      by (cases "record_passes rt fds ?vs r") auto
    from record_passes_sound [OF b] b show ?thesis by (simp add: kept_def Let_def)
  qed
  with out show ?thesis by (simp cong: filter_cong)
qed

lemma applyFilters_total:
  assumes "evaluates rt data conditions fds"
  shows "applyFilters rt data conditions fds = Inr (filter (kept rt conditions fds) data)"
proof -
  let ?vs = "filter isValidFilter conditions"
  have "\<forall>r\<in>set data. \<not> isl (record_passes rt fds ?vs r)"
    using assms by (auto simp: evaluates_def list_all_iff intro!: record_passes_total)
  moreover have "\<not> list_ex inherited_key ?vs"
    using assms by (simp add: evaluates_def list_all_iff list_ex_iff)
  ultimately have "\<exists>out. applyFilters rt data conditions fds = Inr out"
    by (simp add: applyFilters_unfold Array_filter_total)
  then show ?thesis using applyFilters_sound by blast
qed

lemma applyFilters_single:
  assumes "isValidFilter c" "key fd = fieldKey c"
  shows "applyFilters rt [r] [c] [fd] =
           (if inherited_key c then Inl TypeError
            else case matchCondition rt r c fd of
                   Inl e \<Rightarrow> Inl e
                 | Inr b \<Rightarrow> Inr (if b then [r] else []))"
proof -
  have g: "Object_entries (groups_of [c]) = [(fieldKey c, [c])]"
    by (simp add: groups_of_def push_group_def Object_entries_single)
  have f: "fieldMap [fd] (fieldKey c) = Some fd"
    using assms by (simp add: fieldMap_def)
  have "record_passes rt [fd] [c] r = matchCondition rt r c fd"
    unfolding record_passes_def g using f
    by (cases "matchCondition rt r c fd") auto
  with assms show ?thesis
    by (simp add: applyFilters_unfold split: sum.splits)
qed

text \<open>
  Conditions whose field key has no definition do not change the pass, provided none of
  the valid ones has a field key on which the grouping raises.
\<close>

lemma unknown_field_key_ignored_if_grouped:
  assumes "list_all (\<lambda>c. \<not> inherited_key c)
             (filter (\<lambda>c. \<not> List.member (map key fds) (fieldKey c))
                (filter isValidFilter conditions))"
  shows "applyFilters rt data conditions fds =
           applyFilters rt data
             (filter (\<lambda>c. List.member (map key fds) (fieldKey c)) conditions) fds"
proof -
  let ?D = "\<lambda>c. List.member (map key fds) (fieldKey c)"
  let ?vs = "filter isValidFilter conditions"
  have comm: "filter isValidFilter (filter ?D conditions) = filter ?D ?vs"
    by (simp add: conj_commute)
  have ex: "list_ex inherited_key (filter ?D ?vs) = list_ex inherited_key ?vs"
    using assms by (auto simp: list_ex_iff list_all_iff)
  have right: "applyFilters rt data (filter ?D conditions) fds =
                 (if filter ?D ?vs = [] then Inr data
                  else if list_ex inherited_key ?vs then Inl TypeError
                  else Array_filter (record_passes rt fds (filter ?D ?vs)) data)"
    by (simp only: applyFilters_unfold comm ex)
  have left: "applyFilters rt data conditions fds =
                (if ?vs = [] then Inr data
                 else if list_ex inherited_key ?vs then Inl TypeError
                 else Array_filter (record_passes rt fds ?vs) data)"
    by (rule applyFilters_unfold)
  have passes: "record_passes rt fds (filter ?D ?vs) = record_passes rt fds ?vs"
    using record_passes_defined_only by blast
  show ?thesis
  proof (cases "filter ?D ?vs = []")
    case True
    then have no: "\<not> list_ex inherited_key ?vs"
      using ex by simp
    have "record_passes rt fds ?vs r = Inr True" for r
      using record_passes_defined_only [of rt fds ?vs r] True
      by (simp add: record_passes_def groups_of_def Object_entries_def)
    then have "Array_filter (record_passes rt fds ?vs) data = Inr data"
      by (simp add: Array_filter_all_True)
    with True no left right show ?thesis by simp
  next
    case False
    then have "?vs \<noteq> []" by (metis filter.simps(1))
    with False left right passes show ?thesis by simp
  qed
qed

lemma kept_mono:
  assumes new: "fieldKey c \<notin> fieldKey ` set (cs1 @ cs2)"
    and k: "kept rt (cs1 @ c # cs2) fds r"
  shows "kept rt (cs1 @ cs2) fds r"
proof -
  let ?vs' = "filter isValidFilter (cs1 @ c # cs2)"
  let ?vs = "filter isValidFilter (cs1 @ cs2)"
  have "group_satisfied rt fds ?vs r (fieldKey c0)" if c0: "c0 \<in> set ?vs" for c0
  proof (cases "fieldMap fds (fieldKey c0)")
    case None
    then show ?thesis by (simp add: group_satisfied_def)
  next
    case (Some fd)
    from c0 have "c0 \<in> set ?vs'" by auto
    with k have "group_satisfied rt fds ?vs' r (fieldKey c0)"
      by (simp add: kept_def Let_def list_all_iff)
    with Some obtain c' where c': "c' \<in> set ?vs'" "fieldKey c' = fieldKey c0"
      "matchCondition rt r c' fd = Inr True"
      by (auto simp: group_satisfied_def list_ex_iff)
    from c0 new have "fieldKey c0 \<noteq> fieldKey c" by (metis filter_is_subset imageI subsetD)
    with c' have "c' \<noteq> c" by auto
    with c'(1) have "c' \<in> set ?vs" by (auto split: if_splits)
    with c' Some show ?thesis by (auto simp: group_satisfied_def list_ex_iff)
  qed
  then show ?thesis by (simp add: kept_def Let_def list_all_iff)
qed

lemma evaluates_mono:
  "evaluates rt data (cs1 @ c # cs2) fds \<Longrightarrow> evaluates rt data (cs1 @ cs2) fds"
  by (auto simp: evaluates_def list_all_iff)

lemma subseq_filter_mono:
  assumes "\<And>x. x \<in> set xs \<Longrightarrow> P x \<Longrightarrow> Q x"
  shows "subseq (filter P xs) (filter Q xs)"
proof -
  have "filter P xs = filter P (filter Q xs)"
    using assms by (auto simp: filter_filter intro!: filter_cong)
  then show ?thesis by (metis subseq_filter_left)
qed

section \<open>The claims\<close>

text \<open>
  C1. For every data set, condition list and field-definition list, \<open>applyFilters\<close> keeps a
  record if and only if every group of valid conditions sharing a field key has a
  condition that matches the record, each condition evaluated by \<open>matchCondition\<close>, which
  reads the value by \<open>getNestedValue\<close> and calls the matcher of the field's type; a group
  whose key has no field definition has no matcher and constrains nothing. Whenever the
  pass returns, its result is the data filtered by \<open>kept\<close>; and it does return whenever
  nothing raises, neither the grouping nor a matcher (\<open>evaluates\<close>).
\<close>

theorem applyFilters_keeps_iff:
  "(applyFilters rt data conditions fds = Inr out \<longrightarrow>
      out = filter (kept rt conditions fds) data) \<and>
   (evaluates rt data conditions fds \<longrightarrow>
      applyFilters rt data conditions fds = Inr (filter (kept rt conditions fds) data))"
  using applyFilters_sound applyFilters_total by blast

text \<open>
  The specification's scenario: department is Engineering or Sales, and isActive is true.
\<close>

theorem applyFilters_keeps_iff_witness:
  "evaluates sample_runtime [alice, bob, carol]
     [department_is_engineering, department_is_sales, isActive_is_true]
     [department_field, isActive_field] \<and>
   applyFilters sample_runtime [alice, bob, carol]
     [department_is_engineering, department_is_sales, isActive_is_true]
     [department_field, isActive_field] = Inr [alice] \<and>
   filter (kept sample_runtime
             [department_is_engineering, department_is_sales, isActive_is_true]
             [department_field, isActive_field])
     [alice, bob, carol] = [alice]"
proof -
  have e: "evaluates sample_runtime [alice, bob, carol]
             [department_is_engineering, department_is_sales, isActive_is_true]
             [department_field, isActive_field]"
    by code_simp
  have a: "applyFilters sample_runtime [alice, bob, carol]
             [department_is_engineering, department_is_sales, isActive_is_true]
             [department_field, isActive_field] = Inr [alice]"
    by code_simp
  from applyFilters_keeps_iff
         [of sample_runtime "[alice, bob, carol]"
            "[department_is_engineering, department_is_sales, isActive_is_true]"
            "[department_field, isActive_field]" "[alice]"] e a
  show ?thesis by simp
qed

text \<open>
  C5. If no condition of the list passes the validator, in particular if the list is
  empty, \<open>applyFilters\<close> returns the data set unchanged.
\<close>

theorem applyFilters_identity:
  "filter isValidFilter conditions = [] \<Longrightarrow> applyFilters rt data conditions fds = Inr data"
  by (simp add: applyFilters_unfold)

theorem applyFilters_identity_witness:
  "filter isValidFilter [new_row] = [] \<and>
   applyFilters sample_runtime [alice, bob] [new_row] [department_field] = Inr [alice, bob] \<and>
   applyFilters sample_runtime [alice, bob] [] [department_field] = Inr [alice, bob]"
proof -
  have v: "filter isValidFilter [new_row] = []" by code_simp
  have n: "filter isValidFilter [] = []" by simp
  from applyFilters_identity [OF v] applyFilters_identity [OF n] v show ?thesis by simp
qed

text \<open>
  C6. AND monotonicity: adding to a condition list, at any position, a condition whose field
  key differs from the key of every condition of the list never adds a record to the
  result: when both passes return, the result with the new condition is a subsequence of
  the result without it; and both return whenever nothing raises on the longer list,
  neither the grouping nor a matcher (\<open>evaluates\<close>).
\<close>

theorem AND_monotonicity:
  assumes "fieldKey c \<notin> fieldKey ` set (cs1 @ cs2)"
  shows "(applyFilters rt data (cs1 @ c # cs2) fds = Inr out' \<and>
          applyFilters rt data (cs1 @ cs2) fds = Inr out \<longrightarrow> subseq out' out) \<and>
         (evaluates rt data (cs1 @ c # cs2) fds \<longrightarrow>
            (\<exists>ys' ys. applyFilters rt data (cs1 @ c # cs2) fds = Inr ys' \<and>
                       applyFilters rt data (cs1 @ cs2) fds = Inr ys \<and> subseq ys' ys))"
proof -
  have sub: "subseq (filter (kept rt (cs1 @ c # cs2) fds) data)
                    (filter (kept rt (cs1 @ cs2) fds) data)"
    using kept_mono [OF assms] by (intro subseq_filter_mono)
  have 1: "subseq out' out"
    if "applyFilters rt data (cs1 @ c # cs2) fds = Inr out'"
      and "applyFilters rt data (cs1 @ cs2) fds = Inr out"
    using that sub by (auto dest!: applyFilters_sound)
  have 2: "\<exists>ys' ys. applyFilters rt data (cs1 @ c # cs2) fds = Inr ys' \<and>
                     applyFilters rt data (cs1 @ cs2) fds = Inr ys \<and> subseq ys' ys"
    if e: "evaluates rt data (cs1 @ c # cs2) fds"
    using applyFilters_total [OF e] applyFilters_total [OF evaluates_mono [OF e]] sub by simp
  from 1 2 show ?thesis by blast
qed

theorem AND_monotonicity_witness:
  "fieldKey isActive_is_true \<notin> fieldKey ` set ([department_is_engineering] @ [department_is_sales]) \<and>
   evaluates sample_runtime [alice, bob, carol]
     ([department_is_engineering] @ isActive_is_true # [department_is_sales])
     [department_field, isActive_field] \<and>
   applyFilters sample_runtime [alice, bob, carol]
     ([department_is_engineering] @ isActive_is_true # [department_is_sales])
     [department_field, isActive_field] = Inr [alice] \<and>
   applyFilters sample_runtime [alice, bob, carol]
     ([department_is_engineering] @ [department_is_sales])
     [department_field, isActive_field] = Inr [alice, bob] \<and>
   subseq [alice] [alice, bob]"
proof -
  have h: "fieldKey isActive_is_true
             \<notin> fieldKey ` set ([department_is_engineering] @ [department_is_sales])"
    by (simp add: department_is_engineering_def department_is_sales_def isActive_is_true_def)
  have a: "applyFilters sample_runtime [alice, bob, carol]
             ([department_is_engineering] @ isActive_is_true # [department_is_sales])
             [department_field, isActive_field] = Inr [alice]"
    by code_simp
  have b: "applyFilters sample_runtime [alice, bob, carol]
             ([department_is_engineering] @ [department_is_sales])
             [department_field, isActive_field] = Inr [alice, bob]"
    by code_simp
  have e: "evaluates sample_runtime [alice, bob, carol]
             ([department_is_engineering] @ isActive_is_true # [department_is_sales])
             [department_field, isActive_field]"
    by code_simp
  from AND_monotonicity
         [OF h, of sample_runtime "[alice, bob, carol]" "[department_field, isActive_field]"
            "[alice]" "[alice, bob]"] a b
  have "subseq [alice] [alice, bob]" by blast
  with h a b e show ?thesis by blast
qed

text \<open>
  C7. Validator gating: a condition whose field key is empty or whose operator is empty is
  judged invalid by \<open>isValidFilter\<close>, and adding it to a condition list, at any position,
  does not change what \<open>applyFilters\<close> returns.
\<close>

theorem validator_gating:
  "fieldKey c = '''' \<or> operator c = '''' \<Longrightarrow>
     \<not> isValidFilter c \<and>
     applyFilters rt data (cs1 @ c # cs2) fds = applyFilters rt data (cs1 @ cs2) fds"
  by (auto simp: applyFilters_unfold isValidFilter_def)

theorem validator_gating_witness:
  "(fieldKey new_row = '''' \<or> operator new_row = '''') \<and>
   \<not> isValidFilter new_row \<and>
   applyFilters sample_runtime [alice, bob, carol]
     ([department_is_engineering] @ new_row # [isActive_is_true])
     [department_field, isActive_field]
   = applyFilters sample_runtime [alice, bob, carol]
       ([department_is_engineering] @ [isActive_is_true])
       [department_field, isActive_field]"
proof -
  have h: "fieldKey new_row = '''' \<or> operator new_row = ''''" by (simp add: new_row_def)
  from validator_gating
         [OF h, of sample_runtime "[alice, bob, carol]" "[department_is_engineering]"
            "[isActive_is_true]" "[department_field, isActive_field]"] h
  show ?thesis by simp
qed

text \<open>
  C8. A group of valid conditions whose field key matches no field definition should be
  satisfied by every record, so that \<open>applyFilters\<close> returns what it returns on the
  conditions whose field key has a definition. The code does so (the lookup in \<open>fieldMap\<close>
  finds nothing and the group is passed over) unless the key names a member of
  \<^verbatim>\<open>Object.prototype\<close>: a valid condition with such a field key, whether or not the key
  has a field definition, makes the grouping raise before any record is looked at.
\<close>

theorem inherited_field_key_raises:
  assumes "c \<in> set conditions"
    and "isValidFilter c"
    and "inherited_key c"
  shows "applyFilters rt data conditions fds = Inl TypeError"
proof -
  from assms have m: "c \<in> set (filter isValidFilter conditions)" by simp
  with assms(3) have "list_ex inherited_key (filter isValidFilter conditions)"
    by (auto simp: list_ex_iff)
  moreover from m have "filter isValidFilter conditions \<noteq> []"
    by (metis empty_iff empty_set)
  ultimately show ?thesis by (simp add: applyFilters_unfold)
qed

text \<open>
  The valid condition on the field key \<^verbatim>\<open>constructor\<close>, which has no field definition:
  the pass raises, while the pass on the conditions that have a definition returns the
  data.
\<close>

theorem inherited_field_key_raises_witness:
  "constructor_equals_x \<in> set [constructor_equals_x] \<and>
   isValidFilter constructor_equals_x \<and>
   inherited_key constructor_equals_x \<and>
   \<not> List.member (map key [department_field]) (fieldKey constructor_equals_x) \<and>
   applyFilters sample_runtime [alice] [constructor_equals_x] [department_field]
     = Inl TypeError \<and>
   applyFilters sample_runtime [alice]
     (filter (\<lambda>c. List.member (map key [department_field]) (fieldKey c)) [constructor_equals_x])
     [department_field]
     = Inr [alice]"
proof -
  have m: "constructor_equals_x \<in> set [constructor_equals_x]" by simp
  have v: "isValidFilter constructor_equals_x" by code_simp
  have i: "inherited_key constructor_equals_x" by code_simp
  have n: "\<not> List.member (map key [department_field]) (fieldKey constructor_equals_x)"
    by code_simp
  have r: "applyFilters sample_runtime [alice]
             (filter (\<lambda>c. List.member (map key [department_field]) (fieldKey c))
                [constructor_equals_x])
             [department_field]
           = Inr [alice]"
    by code_simp
  from inherited_field_key_raises [OF m v i, of sample_runtime "[alice]" "[department_field]"]
    m v i n r
  show ?thesis by blast
qed

text \<open>
  C10. For a Boolean field, a record whose value at the field's path is absent is coerced
  to \<^verbatim>\<open>false\<close> before the comparison: a condition with value \<^verbatim>\<open>false\<close> matches it and one
  with value \<^verbatim>\<open>true\<close> does not. So a pass with one valid Boolean condition on that field
  keeps such a record exactly when the condition's value is \<^verbatim>\<open>false\<close>; the one pass that
  does not get that far is on a field key that names a member of \<^verbatim>\<open>Object.prototype\<close>, on
  which the grouping raises.
\<close>

theorem boolean_absent_coerced_false:
  assumes "type fd = Boolean"
    and "getNestedValue record (fieldKey c) = VUndefined"
    and "value c = VBool b"
  shows "matchCondition rt record c fd = Inr (\<not> b) \<and>
         (isValidFilter c \<and> key fd = fieldKey c \<longrightarrow>
            applyFilters rt [record] [c] [fd] =
              (if inherited_key c then Inl TypeError else Inr (if b then [] else [record])))"
proof -
  from assms have m: "matchCondition rt record c fd = Inr (\<not> b)"
    by (auto simp: matchCondition_def matchBoolean_def)
  then show ?thesis by (auto simp: applyFilters_single)
qed

theorem boolean_absent_coerced_false_witness:
  "type isActive_field = Boolean \<and>
   getNestedValue dave (fieldKey isActive_is_false) = VUndefined \<and>
   value isActive_is_false = VBool False \<and>
   isValidFilter isActive_is_false \<and>
   key isActive_field = fieldKey isActive_is_false \<and>
   matchCondition sample_runtime dave isActive_is_false isActive_field = Inr True \<and>
   applyFilters sample_runtime [dave] [isActive_is_false] [isActive_field] = Inr [dave]"
proof -
  have t: "type isActive_field = Boolean" by (simp add: isActive_field_def)
  have g: "getNestedValue dave (fieldKey isActive_is_false) = VUndefined" by code_simp
  have v: "value isActive_is_false = VBool False" by (simp add: isActive_is_false_def)
  have i: "isValidFilter isActive_is_false" by code_simp
  have k: "key isActive_field = fieldKey isActive_is_false"
    by (simp add: isActive_field_def isActive_is_false_def)
  have n: "\<not> inherited_key isActive_is_false" by code_simp
  from boolean_absent_coerced_false [OF t g v, of sample_runtime] t g v i k n
  show ?thesis by simp
qed



text \<open>
  C2, as stated, fails: \<open>matchSingleSelect\<close> and \<open>matchMultiSelect\<close> compare strings
  exactly. \<^verbatim>\<open>Sales\<close> and \<^verbatim>\<open>sales\<close> differ only in letter case, and the operator \<^verbatim>\<open>is\<close> tells
  them apart; so does \<^verbatim>\<open>in\<close> for \<^verbatim>\<open>SQL\<close> and \<^verbatim>\<open>sql\<close>.
\<close>

theorem select_matchers_case_sensitive:
  "toLowerCase sample_runtime ''Sales'' = toLowerCase sample_runtime ''sales'' \<and>
   matchSingleSelect ''sales'' (VStr ''sales'') ''is'' = True \<and>
   matchSingleSelect ''Sales'' (VStr ''sales'') ''is'' = False \<and>
   toLowerCase sample_runtime ''SQL'' = toLowerCase sample_runtime ''sql'' \<and>
   matchMultiSelect (VArr [VStr ''sql'']) (VArr [VStr ''sql'']) ''in'' = Inr True \<and>
   matchMultiSelect (VArr [VStr ''SQL'']) (VArr [VStr ''sql'']) ''in'' = Inr False"
  by code_simp

text \<open>
  C2, amended. The Text operators \<^verbatim>\<open>equals\<close>, \<^verbatim>\<open>contains\<close>, \<^verbatim>\<open>startsWith\<close>, \<^verbatim>\<open>endsWith\<close> and
  \<^verbatim>\<open>doesNotContain\<close> lowercase both operands before comparing: on record values that
  lowercase to the same string, and condition values that do, they give the same result.
  The SingleSelect operators compare the strings as they are, and the MultiSelect operators
  test membership of the strings as they are.
\<close>

theorem text_operators_case_insensitive:
  assumes "toLowerCase rt v = toLowerCase rt v'"
    and "toLowerCase rt f = toLowerCase rt f'"
    and "List.member [''equals'', ''contains'', ''startsWith'', ''endsWith'', ''doesNotContain''] op"
  shows "matchText rt v (VStr f) op = matchText rt v' (VStr f') op \<and>
         matchSingleSelect v (VStr f) ''is'' = (v = f) \<and>
         matchSingleSelect v (VStr f) ''isNot'' = (v \<noteq> f) \<and>
         matchMultiSelect (VArr (map VStr vs)) (VArr (map VStr (f # fs))) ''in''
           = Inr (\<exists>x\<in>set (f # fs). x \<in> set vs) \<and>
         matchMultiSelect (VArr (map VStr vs)) (VArr (map VStr (f # fs))) ''notIn''
           = Inr (\<not> (\<exists>x\<in>set (f # fs). x \<in> set vs)) \<and>
         matchMultiSelect (VArr (map VStr vs)) (VArr (map VStr (f # fs))) ''all''
           = Inr (\<forall>x\<in>set (f # fs). x \<in> set vs)"
proof -
  have inc: "Array_includes (map VStr vs) (VStr x) = (x \<in> set vs)" for x
    by (induction vs) (auto simp: Array_includes_def)
  have len: "\<not> strict_equals (VNum (Num (real (length (map VStr (f # fs)))))) (VNum (Num 0))"
    by simp
  from assms have 1: "matchText rt v (VStr f) op = matchText rt v' (VStr f') op"
    by (auto simp: Let_def)
  have 2: "matchSingleSelect v (VStr f) ''is'' = (v = f)"
    and 3: "matchSingleSelect v (VStr f) ''isNot'' = (v \<noteq> f)"
    by (simp_all add: matchSingleSelect_def)
  have 4: "matchMultiSelect (VArr (map VStr vs)) (VArr (map VStr (f # fs))) ''in''
             = Inr (\<exists>x\<in>set (f # fs). x \<in> set vs)"
    using len by (simp add: inc list_ex_iff)
  have 5: "matchMultiSelect (VArr (map VStr vs)) (VArr (map VStr (f # fs))) ''notIn''
             = Inr (\<not> (\<exists>x\<in>set (f # fs). x \<in> set vs))"
    using len by (simp add: inc list_ex_iff)
  have 6: "matchMultiSelect (VArr (map VStr vs)) (VArr (map VStr (f # fs))) ''all''
             = Inr (\<forall>x\<in>set (f # fs). x \<in> set vs)"
    using len by (simp add: inc list_all_iff)
  from 1 2 3 4 5 6 show ?thesis by blast
qed

theorem text_operators_case_insensitive_witness:
  "toLowerCase sample_runtime ''Alice'' = toLowerCase sample_runtime ''ALICE'' \<and>
   toLowerCase sample_runtime ''ali'' = toLowerCase sample_runtime ''ALi'' \<and>
   List.member [''equals'', ''contains'', ''startsWith'', ''endsWith'', ''doesNotContain'']
     ''contains'' \<and>
   matchText sample_runtime ''Alice'' (VStr ''ali'') ''contains''
     = matchText sample_runtime ''ALICE'' (VStr ''ALi'') ''contains'' \<and>
   matchText sample_runtime ''Alice'' (VStr ''ali'') ''contains'' = Inr True"
proof -
  have a: "toLowerCase sample_runtime ''Alice'' = toLowerCase sample_runtime ''ALICE''"
    by code_simp
  have b: "toLowerCase sample_runtime ''ali'' = toLowerCase sample_runtime ''ALi''"
    by code_simp
  have c: "List.member [''equals'', ''contains'', ''startsWith'', ''endsWith'', ''doesNotContain'']
             ''contains''"
    by simp
  have d: "matchText sample_runtime ''Alice'' (VStr ''ali'') ''contains'' = Inr True"
    by code_simp
  from text_operators_case_insensitive [OF a b c] a b c d show ?thesis by simp
qed

text \<open>
  C3, as stated, fails for \<^verbatim>\<open>notIn\<close>: Dave's \<^verbatim>\<open>skills\<close> is a string, not a sequence, and the
  valid condition that his skills contain none of \<^verbatim>\<open>Go\<close> matches him.
\<close>

theorem notIn_matches_non_sequence:
  "type skills_field = MultiSelect \<and>
   isValidFilter skills_notIn \<and>
   getNestedValue dave (fieldKey skills_notIn) = VStr ''React'' \<and>
   matchCondition sample_runtime dave skills_notIn skills_field = Inr True"
  by code_simp

text \<open>
  C3, amended. \<open>matchCondition\<close> replaces a record value that is not a sequence by the
  empty list before it calls the matcher. For a valid MultiSelect condition whose value is
  a list, on such a record the operators \<^verbatim>\<open>in\<close> and \<^verbatim>\<open>all\<close> yield non-match and \<^verbatim>\<open>notIn\<close>
  yields match, and nothing is raised. \<open>matchMultiSelect\<close> itself, given the value that is
  not a sequence, returns \<^verbatim>\<open>false\<close> for every operator.
\<close>

theorem multiselect_non_sequence:
  assumes "type fd = MultiSelect"
    and "\<not> Array_isArray (getNestedValue record (fieldKey c))"
    and "isValidFilter c"
    and "value c = VArr fvs"
    and "List.member [''in'', ''notIn'', ''all''] (operator c)"
  shows "matchCondition rt record c fd = Inr (operator c = ''notIn'') \<and>
         matchMultiSelect (getNestedValue record (fieldKey c)) (value c) (operator c)
           = Inr False"
proof -
  from assms(3,4,5) have ne: "fvs \<noteq> []"
    by (auto simp: isValidFilter_def Let_def split: if_splits)
  then have len: "\<not> strict_equals (VNum (Num (real (length fvs)))) (VNum (Num 0))"
    by simp
  have inc: "\<not> list_ex (Array_includes []) fvs"
    by (simp add: Array_includes_def list_ex_iff)
  have all: "\<not> list_all (Array_includes []) fvs"
    using ne by (cases fvs) (simp_all add: Array_includes_def)
  from assms(2)
  have 2: "matchMultiSelect (getNestedValue record (fieldKey c)) (value c) (operator c)
             = Inr False"
    by (cases "getNestedValue record (fieldKey c)") simp_all
  from assms(1,2,4,5) len inc all
  have 1: "matchCondition rt record c fd = Inr (operator c = ''notIn'')"
    by (auto simp: matchCondition_def Let_def)
  from 1 2 show ?thesis by simp
qed

theorem multiselect_non_sequence_witness:
  "type skills_field = MultiSelect \<and>
   \<not> Array_isArray (getNestedValue dave (fieldKey skills_notIn)) \<and>
   isValidFilter skills_notIn \<and>
   value skills_notIn = VArr [VStr ''Go''] \<and>
   List.member [''in'', ''notIn'', ''all''] (operator skills_notIn) \<and>
   matchCondition sample_runtime dave skills_notIn skills_field = Inr True \<and>
   matchMultiSelect (getNestedValue dave (fieldKey skills_notIn)) (value skills_notIn)
     (operator skills_notIn) = Inr False"
proof -
  have t: "type skills_field = MultiSelect" by (simp add: skills_field_def)
  have a: "\<not> Array_isArray (getNestedValue dave (fieldKey skills_notIn))" by code_simp
  have i: "isValidFilter skills_notIn" by code_simp
  have v: "value skills_notIn = VArr [VStr ''Go'']" by (simp add: skills_notIn_def)
  have m: "List.member [''in'', ''notIn'', ''all''] (operator skills_notIn)"
    by (simp add: skills_notIn_def)
  have o: "operator skills_notIn = ''notIn''" by (simp add: skills_notIn_def)
  from multiselect_non_sequence [OF t a i v m, of sample_runtime] t a i v m o
  show ?thesis by simp
qed




end
